theory Spec2Isabelle
  imports Main "HOL-Library.Sublist"
begin

section \<open>Header/Meta Checker: the policy engine of header-meta-checker.user.js\<close>

text \<open>
  The userscript inspects one page: the robots meta tag of the document, the
  robots.txt of the site (for funnel pages) and the x-robots-tag header of a HEAD
  request, and it shows two verdicts in a banner. The model below follows
  \<^verbatim>\<open>src/header-meta-checker.user.js\<close> function by function.

  Strings are lists of code units below 256 (\<^typ>\<open>char\<close>); on that range the string
  operations of the script are the ones defined here.
\<close>

subsection \<open>String operations of the host language\<close>

text \<open>\<^verbatim>\<open>String.prototype.toLowerCase\<close> on code units below 256: the letters A-Z and the
  Latin-1 capitals (192 to 222, without the multiplication sign 215) move up by 32.\<close>

definition toLowerChar :: "char \<Rightarrow> char" where
  "toLowerChar c =
     (let n = (of_char c :: nat) in
      if (65 \<le> n \<and> n \<le> 90) \<or> (192 \<le> n \<and> n \<le> 222 \<and> n \<noteq> 215)
      then char_of (n + 32) else c)"

definition toLowerCase :: "string \<Rightarrow> string" where
  "toLowerCase s = map toLowerChar s"

text \<open>White space as \<^verbatim>\<open>trim\<close> and the regular expression class \<^verbatim>\<open>\s\<close> see it: tab, line
  feed, vertical tab, form feed, carriage return, space, no-break space.\<close>

definition isWhiteSpace :: "char \<Rightarrow> bool" where
  "isWhiteSpace c = ((of_char c :: nat) \<in> {9, 10, 11, 12, 13, 32, 160})"

text \<open>The characters that the regular expression dot does not match.\<close>

definition isLineTerminator :: "char \<Rightarrow> bool" where
  "isLineTerminator c = ((of_char c :: nat) \<in> {10, 13})"

definition trim :: "string \<Rightarrow> string" where
  "trim s = rev (dropWhile isWhiteSpace (rev (dropWhile isWhiteSpace s)))"

definition startsWith :: "string \<Rightarrow> string \<Rightarrow> bool" where
  "startsWith s p = prefix p s"

definition endsWith :: "string \<Rightarrow> string \<Rightarrow> bool" where
  "endsWith s p = suffix p s"

text \<open>\<^verbatim>\<open>s.includes(sub)\<close>: \<^verbatim>\<open>sub\<close> occurs in \<^verbatim>\<open>s\<close> as a contiguous run.\<close>

fun includes_str :: "string \<Rightarrow> string \<Rightarrow> bool" where
  "includes_str [] sub = (sub = [])"
| "includes_str (c # cs) sub = (prefix sub (c # cs) \<or> includes_str cs sub)"

text \<open>\<^verbatim>\<open>s.split('\n')\<close>: the pieces between line feeds; there is always at least one.\<close>

fun split_lines :: "string \<Rightarrow> string list" where
  "split_lines [] = [[]]"
| "split_lines (c # cs) =
     (if c = CHR 0x0A then [] # split_lines cs
      else (case split_lines cs of
              [] \<Rightarrow> [[c]]
            | l # ls \<Rightarrow> (c # l) # ls))"

subsection \<open>Data\<close>

text \<open>The status strings \<^verbatim>\<open>'ok'\<close>, \<^verbatim>\<open>'bad'\<close> and \<^verbatim>\<open>'not-found'\<close>.\<close>

datatype status = OK | BAD | NOT_FOUND

text \<open>The result object \<^verbatim>\<open>{ message, status }\<close> of every check.\<close>

record verdict =
  message :: string
  status :: status

text \<open>The configuration block: \<^verbatim>\<open>funnelPaths\<close> is filled in by the operator (the
  published script holds a placeholder), so it is a parameter here.\<close>

record config =
  funnelPaths :: "string list"

text \<open>What the script reads from the page: \<^verbatim>\<open>window.location.hostname\<close>,
  \<^verbatim>\<open>window.location.pathname\<close>, and the result of
  \<^verbatim>\<open>document.querySelector('meta[name="robots"]')\<close>: \<open>None\<close> when there is no such tag,
  \<open>Some None\<close> when the tag has no \<^verbatim>\<open>content\<close> attribute (\<^verbatim>\<open>getAttribute\<close> gives
  \<^verbatim>\<open>null\<close>), \<open>Some (Some c)\<close> when the attribute holds the string \<open>c\<close>.\<close>

record page =
  hostname :: string
  pathname :: string
  metaTag :: "string option option"

text \<open>The outcome of one \<^verbatim>\<open>GM_xmlhttpRequest\<close>: \<^verbatim>\<open>onload\<close> with the text it delivers
  (the body for the GET of robots.txt, the header block for the HEAD request), or
  \<^verbatim>\<open>onerror\<close>. A request for which neither callback fires is outside the model.\<close>

datatype fetch = Loaded string | Failed

text \<open>Calling a method on \<^verbatim>\<open>null\<close> raises a \<^verbatim>\<open>TypeError\<close>.\<close>

datatype error = TypeError

subsection \<open>getNormalizedPathname\<close>

text \<open>The argument is \<^verbatim>\<open>window.location.pathname\<close>; \<^verbatim>\<open>slice(0, -1)\<close> drops the last
  code unit.\<close>

definition getNormalizedPathname :: "string \<Rightarrow> string" where
  "getNormalizedPathname p =
     (if length p > 1 \<and> endsWith p ''/'' then butlast p else p)"

subsection \<open>shouldUseStandardLogic\<close>

definition shouldUseStandardLogic :: "config \<Rightarrow> page \<Rightarrow> bool" where
  "shouldUseStandardLogic cfg pg =
     (let pathname' = getNormalizedPathname (pathname pg) in
      if hostname pg = ''get-honey.ai''
      then \<not> (pathname' \<in> set (funnelPaths cfg))
      else False)"

subsection \<open>checkRobotsTxtForPath\<close>

text \<open>Step 1 of the \<^verbatim>\<open>onload\<close> callback: the list of disallowed paths.\<close>

definition disallowedPaths :: "string \<Rightarrow> string list" where
  "disallowedPaths robotsTxtContent =
     map (\<lambda>line. trim (drop (length ''disallow:'') line))
       (filter (\<lambda>line. startsWith line ''disallow:'')
         (map (\<lambda>line. toLowerCase (trim line)) (split_lines robotsTxtContent)))"

text \<open>The callback given to \<^verbatim>\<open>some\<close>: does one rule cover the current path?\<close>

definition ruleCovers :: "string \<Rightarrow> string \<Rightarrow> bool" where
  "ruleCovers currentPath disallowedPath =
     (let normalizedDisallowedPath =
            (if length disallowedPath > 1 \<and> endsWith disallowedPath ''/''
             then butlast disallowedPath else disallowedPath)
      in if normalizedDisallowedPath = [] then False
         else currentPath = normalizedDisallowedPath
              \<or> startsWith currentPath (normalizedDisallowedPath @ ''/''))"

text \<open>Step 2: \<^verbatim>\<open>disallowedPaths.some(...)\<close>.\<close>

definition isDisallowed :: "string \<Rightarrow> string \<Rightarrow> bool" where
  "isDisallowed robotsTxtContent currentPath =
     list_ex (ruleCovers currentPath) (disallowedPaths robotsTxtContent)"

definition checkRobotsTxtForPath :: "fetch \<Rightarrow> string \<Rightarrow> verdict" where
  "checkRobotsTxtForPath response currentPath =
     (case response of
        Loaded robotsTxtContent \<Rightarrow>
          if isDisallowed robotsTxtContent currentPath
          then \<lparr>message = ''robots.txt: Disallowed'', status = OK\<rparr>
          else \<lparr>message = ''robots.txt: NOT Disallowed'', status = BAD\<rparr>
      | Failed \<Rightarrow> \<lparr>message = ''robots.txt: Fetch Error'', status = NOT_FOUND\<rparr>)"

subsection \<open>checkMetaTag\<close>

definition isRestrictive :: "string \<Rightarrow> bool" where
  "isRestrictive content =
     (includes_str (toLowerCase content) ''noindex'' \<or> includes_str (toLowerCase content) ''nofollow'')"

definition checkMetaTag :: "config \<Rightarrow> page \<Rightarrow> error + verdict" where
  "checkMetaTag cfg pg =
     (case metaTag pg of
        Some attr \<Rightarrow>
          (case attr of
             None \<Rightarrow> Inl TypeError
           | Some content \<Rightarrow>
               Inr \<lparr>message = ''Meta: content='' @ [CHR 0x22] @ content @ [CHR 0x22],
                    status = (if shouldUseStandardLogic cfg pg
                              then (if isRestrictive content then BAD else OK)
                              else (if isRestrictive content then OK else BAD))\<rparr>)
      | None \<Rightarrow> Inr \<lparr>message = ''Meta: tag not found'', status = NOT_FOUND\<rparr>)"

subsection \<open>checkHeaderTag\<close>

text \<open>\<^verbatim>\<open>responseHeaders.match(/x-robots-tag:\s*(.*)/i)\<close>: the leftmost place where the
  literal occurs in any letter case; there the white space is skipped and the group
  runs to the end of the line. The result is the group, \<open>None\<close> when the literal does
  not occur.\<close>

fun headerMatch :: "string \<Rightarrow> string option" where
  "headerMatch [] = None"
| "headerMatch (c # cs) =
     (if prefix ''x-robots-tag:'' (toLowerCase (c # cs))
      then Some (takeWhile (\<lambda>x. \<not> isLineTerminator x)
                   (dropWhile isWhiteSpace (drop (length ''x-robots-tag:'') (c # cs))))
      else headerMatch cs)"

definition checkHeaderTag :: "config \<Rightarrow> page \<Rightarrow> fetch \<Rightarrow> verdict" where
  "checkHeaderTag cfg pg response =
     (case response of
        Loaded responseHeaders \<Rightarrow>
          (let isStandard = shouldUseStandardLogic cfg pg in
           case headerMatch responseHeaders of
             Some g \<Rightarrow>
               (let headerValue = trim g in
                \<lparr>message = ''Header: x-robots-tag: '' @ headerValue,
                 status = (if isStandard
                           then (if isRestrictive headerValue then BAD else OK)
                           else (if isRestrictive headerValue then OK else BAD))\<rparr>)
           | None \<Rightarrow>
               \<lparr>message = ''Header: not found'',
                status = (if isStandard then OK else BAD)\<rparr>)
      | Failed \<Rightarrow> \<lparr>message = ''Header: Request error'', status = NOT_FOUND\<rparr>)"

subsection \<open>runChecks\<close>

text \<open>The two panels handed to \<^verbatim>\<open>displaySplitBanner\<close>, or the error that rejects the
  promise before the banner is drawn. The first response is the one to the GET of
  robots.txt, the second the one to the HEAD request.\<close>

definition isFunnel :: "config \<Rightarrow> page \<Rightarrow> bool" where
  "isFunnel cfg pg =
     (hostname pg = ''get-honey.ai''
      \<and> getNormalizedPathname (pathname pg) \<in> set (funnelPaths cfg))"

definition leftPanelResult :: "config \<Rightarrow> page \<Rightarrow> fetch \<Rightarrow> error + verdict" where
  "leftPanelResult cfg pg robotsResponse =
     (if isFunnel cfg pg
      then (let robotsResult =
                  checkRobotsTxtForPath robotsResponse (getNormalizedPathname (pathname pg))
            in if status robotsResult = OK then Inr robotsResult
               else checkMetaTag cfg pg)
      else checkMetaTag cfg pg)"

definition runChecks :: "config \<Rightarrow> page \<Rightarrow> fetch \<Rightarrow> fetch \<Rightarrow> error + (verdict \<times> verdict)" where
  "runChecks cfg pg robotsResponse headResponse =
     (case leftPanelResult cfg pg robotsResponse of
        Inl e \<Rightarrow> Inl e
      | Inr left \<Rightarrow> Inr (left, checkHeaderTag cfg pg headResponse))"

section \<open>Facts about the string operations\<close>

lemma toLowerChar_idem: "toLowerChar (toLowerChar c) = toLowerChar c"
  unfolding toLowerChar_def Let_def by (auto simp: of_char_of)

lemma toLowerCase_idem: "toLowerCase (toLowerCase s) = toLowerCase s"
  by (simp add: toLowerCase_def toLowerChar_idem)

lemma toLowerCase_Cons: "toLowerCase (c # cs) = toLowerChar c # toLowerCase cs"
  by (simp add: toLowerCase_def)

text \<open>\<^verbatim>\<open>includes\<close> is the contiguous-sublist relation of the library.\<close>

lemma includes_str_sublist: "includes_str s sub \<longleftrightarrow> sublist sub s"
  by (induction s) (simp_all add: sublist_Cons_right)

text \<open>The regular expression finds nothing exactly when the header block does not
  contain the literal in any letter case.\<close>

lemma headerMatch_None_iff:
  "headerMatch hs = None \<longleftrightarrow> \<not> sublist ''x-robots-tag:'' (toLowerCase hs)"
proof (induction hs)
  case Nil
  show ?case by (simp add: toLowerCase_def)
next
  case (Cons c cs)
  show ?case
  proof (cases "prefix ''x-robots-tag:'' (toLowerCase (c # cs))")
    case True
    then have "sublist ''x-robots-tag:'' (toLowerCase (c # cs))"
      by (rule prefix_imp_sublist)
    with True show ?thesis by simp
  next
    case False
    then have "headerMatch (c # cs) = headerMatch cs" by simp
    moreover have "sublist ''x-robots-tag:'' (toLowerCase (c # cs))
          \<longleftrightarrow> sublist ''x-robots-tag:'' (toLowerCase cs)"
      using False unfolding toLowerCase_Cons by (metis sublist_Cons_right)
    ultimately show ?thesis using Cons.IH by simp
  qed
qed

lemma endsWith_slash: "endsWith p ''/'' \<longleftrightarrow> p \<noteq> [] \<and> last p = CHR ''/''"
  unfolding endsWith_def
  by (cases p rule: rev_cases) (auto simp: suffix_def)

lemma endsWith_snoc_slash2: "endsWith (q @ ''/'') ''//'' \<longleftrightarrow> endsWith q ''/''"
  unfolding endsWith_def
  by (metis append_Cons append_Nil same_suffix_suffix)

lemma set_trim_subset: "set (trim s) \<subseteq> set s"
proof -
  have "set (trim s) = set (dropWhile isWhiteSpace (rev (dropWhile isWhiteSpace s)))"
    by (simp add: trim_def)
  also have "\<dots> \<subseteq> set (rev (dropWhile isWhiteSpace s))"
    by (rule set_dropWhileD [THEN subsetI])
  also have "\<dots> \<subseteq> set s" using set_dropWhileD by fastforce
  finally show ?thesis .
qed

lemma toLowerCase_fixed_iff: "toLowerCase s = s \<longleftrightarrow> (\<forall>c \<in> set s. toLowerChar c = c)"
  unfolding toLowerCase_def by (induction s) auto

lemma length_toLowerCase: "length (toLowerCase s) = length s"
  by (simp add: toLowerCase_def)

lemma prefix_same_length: "prefix a p \<Longrightarrow> prefix b p \<Longrightarrow> length a = length b \<Longrightarrow> a = b"
  by (metis prefix_length_prefix le_refl prefix_order.eq_iff)

section \<open>The path normalizer\<close>

lemma getNormalizedPathname_snoc_slash:
  "q \<noteq> [] \<Longrightarrow> getNormalizedPathname (q @ ''/'') = q"
  by (simp add: getNormalizedPathname_def endsWith_slash)

lemma getNormalizedPathname_fix_iff:
  "getNormalizedPathname q = q \<longleftrightarrow> \<not> (length q > 1 \<and> endsWith q ''/'')"
proof (cases "length q > 1 \<and> endsWith q ''/''")
  case True
  then have "q \<noteq> []" by auto
  then have "butlast q \<noteq> q"
    by (metis append_butlast_last_id self_append_conv snoc_eq_iff_butlast not_Cons_self2)
  with True show ?thesis by (simp add: getNormalizedPathname_def)
next
  case False
  then show ?thesis by (auto simp add: getNormalizedPathname_def)
qed

text \<open>
  C8, as the script has it. \<^verbatim>\<open>getNormalizedPathname\<close> removes one trailing slash, so
  normalizing twice gives the same as normalizing once exactly for the paths that do
  not end in two slashes behind at least one more character; every path with at most
  one trailing slash is among them. The root path \<^verbatim>\<open>/\<close> is a fixed point.
\<close>

theorem normalize_twice_iff:
  "(getNormalizedPathname (getNormalizedPathname p) = getNormalizedPathname p
      \<longleftrightarrow> \<not> (length p > 2 \<and> endsWith p ''//''))
   \<and> getNormalizedPathname ''/'' = ''/''"
proof
  show "getNormalizedPathname (getNormalizedPathname p) = getNormalizedPathname p
      \<longleftrightarrow> \<not> (length p > 2 \<and> endsWith p ''//'')"
  proof (cases "length p > 1 \<and> endsWith p ''/''")
    case True
    then obtain q where p: "p = q @ ''/''" and q: "q \<noteq> []"
      by (cases p rule: rev_cases) (auto simp: endsWith_slash)
    have "getNormalizedPathname p = q" using p q getNormalizedPathname_snoc_slash by simp
    moreover have "length p > 2 \<longleftrightarrow> length q > 1" using p by auto
    moreover have "endsWith p ''//'' \<longleftrightarrow> endsWith q ''/''"
      using p endsWith_snoc_slash2 by simp
    ultimately show ?thesis using getNormalizedPathname_fix_iff [of q] by simp
  next
    case False
    then have np: "getNormalizedPathname p = p" by (auto simp: getNormalizedPathname_def)
    have "\<not> (length p > 2 \<and> endsWith p ''//'')"
    proof
      assume a: "length p > 2 \<and> endsWith p ''//''"
      then have "suffix ''//'' p" by (simp add: endsWith_def)
      then have "suffix ''/'' p" by (metis suffix_ConsD)
      with a False show False by (simp add: endsWith_def)
    qed
    with np show ?thesis by simp
  qed
  show "getNormalizedPathname ''/'' = ''/''" by (simp add: getNormalizedPathname_def)
qed

text \<open>C8 at the path \<^verbatim>\<open>/path/\<close>, which ends in one slash: both passes give \<^verbatim>\<open>/path\<close>.\<close>

theorem normalize_twice_witness:
  "\<not> (length ''/path/'' > 2 \<and> endsWith ''/path/'' ''//'')
   \<and> getNormalizedPathname (getNormalizedPathname ''/path/'') = getNormalizedPathname ''/path/''
   \<and> getNormalizedPathname ''/path/'' = ''/path''"
proof -
  have h: "\<not> (length ''/path/'' > 2 \<and> endsWith ''/path/'' ''//'')"
    by code_simp
  have n: "getNormalizedPathname ''/path/'' = ''/path''"
    by code_simp
  from h n normalize_twice_iff [of "''/path/''"] show ?thesis by blast
qed

text \<open>C8 as stated fails at the path \<^verbatim>\<open>/a//\<close>: the first pass gives \<^verbatim>\<open>/a/\<close>, the
  second \<^verbatim>\<open>/a\<close>.\<close>

theorem normalize_twice_counterexample:
  "getNormalizedPathname (getNormalizedPathname ''/a//'') \<noteq> getNormalizedPathname ''/a//''"
  by code_simp

section \<open>The exclusion-rule matcher\<close>

lemma ruleCovers_iff:
  "ruleCovers currentPath d \<longleftrightarrow>
     getNormalizedPathname d \<noteq> []
     \<and> (currentPath = getNormalizedPathname d
        \<or> prefix (getNormalizedPathname d @ ''/'') currentPath)"
  by (simp add: ruleCovers_def getNormalizedPathname_def startsWith_def Let_def)

lemma disallowedPaths_lower:
  assumes "d \<in> set (disallowedPaths document)"
  shows "toLowerCase d = d"
proof -
  from assms obtain line
    where d: "d = trim (drop (length ''disallow:'') (toLowerCase (trim line)))"
    by (auto simp: disallowedPaths_def)
  have "set d \<subseteq> set (toLowerCase (trim line))"
    unfolding d using set_trim_subset set_drop_subset by (meson subset_trans)
  then have "\<forall>c \<in> set d. toLowerChar c = c"
    by (auto simp: toLowerCase_def toLowerChar_idem)
  then show ?thesis by (simp add: toLowerCase_fixed_iff)
qed

lemma toLowerCase_getNormalizedPathname:
  "toLowerCase d = d \<Longrightarrow> toLowerCase (getNormalizedPathname d) = getNormalizedPathname d"
  by (auto simp: toLowerCase_fixed_iff getNormalizedPathname_def dest: in_set_butlastD)

lemma relevant_prefix: "(p = q \<or> prefix (q @ ''/'') p) \<Longrightarrow> prefix q p"
  by (auto simp: prefix_def)

text \<open>
  C7. The matcher excludes a path exactly when some candidate of the document, with
  its trailing slash removed as the path normalizer does, is not empty and either
  equals the path or is followed in the path by a slash. For the document with the
  lines \<^verbatim>\<open>Disallow: /a\<close> and \<^verbatim>\<open>Disallow: /b/\<close> the path \<^verbatim>\<open>/a/x\<close> is excluded and the
  path \<^verbatim>\<open>/ab\<close> is not.
\<close>

theorem isDisallowed_iff:
  "(isDisallowed document path \<longleftrightarrow>
     (\<exists>candidate \<in> set (map getNormalizedPathname (disallowedPaths document)).
        candidate \<noteq> [] \<and> (path = candidate \<or> startsWith path (candidate @ ''/''))))
   \<and> isDisallowed (''Disallow: /a'' @ [CHR 0x0A] @ ''Disallow: /b/'') ''/a/x''
   \<and> \<not> isDisallowed (''Disallow: /a'' @ [CHR 0x0A] @ ''Disallow: /b/'') ''/ab''"
proof (intro conjI)
  show "isDisallowed document path \<longleftrightarrow>
     (\<exists>candidate \<in> set (map getNormalizedPathname (disallowedPaths document)).
        candidate \<noteq> [] \<and> (path = candidate \<or> startsWith path (candidate @ ''/'')))"
    by (simp add: isDisallowed_def list_ex_iff ruleCovers_iff startsWith_def)
  show "isDisallowed (''Disallow: /a'' @ [CHR 0x0A] @ ''Disallow: /b/'') ''/a/x''"
    by code_simp
  show "\<not> isDisallowed (''Disallow: /a'' @ [CHR 0x0A] @ ''Disallow: /b/'') ''/ab''"
    by code_simp
qed

text \<open>C7 on a document with comment and mixed-case lines: the path \<^verbatim>\<open>/b\<close> is excluded
  through the candidate \<^verbatim>\<open>/b/\<close>, whose normal form is \<^verbatim>\<open>/b\<close>.\<close>

theorem isDisallowed_iff_witness:
  "disallowedPaths (''# rules'' @ [CHR 0x0A] @ ''  DISALLOW:   /b/  '' @ [CHR 0x0A] @ ''Allow: /'')
      = [''/b/'']
   \<and> isDisallowed (''# rules'' @ [CHR 0x0A] @ ''  DISALLOW:   /b/  '' @ [CHR 0x0A] @ ''Allow: /'') ''/b''
   \<and> (\<exists>candidate \<in> set (map getNormalizedPathname [''/b/'']).
        candidate \<noteq> [] \<and> (''/b'' = candidate \<or> startsWith ''/b'' (candidate @ ''/'')))"
proof -
  let ?doc = "''# rules'' @ [CHR 0x0A] @ ''  DISALLOW:   /b/  '' @ [CHR 0x0A] @ ''Allow: /''"
  have d: "disallowedPaths ?doc = [''/b/'']" by code_simp
  have i: "isDisallowed ?doc ''/b''" by code_simp
  from isDisallowed_iff [of ?doc "''/b''"] i
  have "\<exists>candidate \<in> set (map getNormalizedPathname (disallowedPaths ?doc)).
        candidate \<noteq> [] \<and> (''/b'' = candidate \<or> startsWith ''/b'' (candidate @ ''/''))"
    by blast
  with d i show ?thesis by simp
qed

text \<open>
  C10. Every candidate taken from the document is in lower case, and the query path
  is compared as it is. So a rule never covers a path through a prefix of the path
  that holds an upper-case letter and differs from the rule in letter case only; and
  whenever the matcher reports a match, the matched prefix of the path is in lower
  case.
\<close>

theorem rules_lowercase_query_as_is:
  "(\<forall>d \<in> set (disallowedPaths document). toLowerCase d = d)
   \<and> (\<forall>d \<in> set (disallowedPaths document). \<forall>q.
         (currentPath = q \<or> startsWith currentPath (q @ ''/''))
         \<and> toLowerCase q \<noteq> q
         \<and> toLowerCase q = getNormalizedPathname d
         \<longrightarrow> \<not> ruleCovers currentPath d)
   \<and> (isDisallowed document currentPath \<longrightarrow>
        (\<exists>q. q \<noteq> [] \<and> toLowerCase q = q
           \<and> (currentPath = q \<or> startsWith currentPath (q @ ''/''))))"
proof (intro conjI ballI allI impI)
  fix d assume "d \<in> set (disallowedPaths document)"
  then show "toLowerCase d = d" by (rule disallowedPaths_lower)
next
  fix d q
  assume d: "d \<in> set (disallowedPaths document)"
    and h: "(currentPath = q \<or> startsWith currentPath (q @ ''/''))
         \<and> toLowerCase q \<noteq> q \<and> toLowerCase q = getNormalizedPathname d"
  show "\<not> ruleCovers currentPath d"
  proof
    assume "ruleCovers currentPath d"
    then have "prefix (getNormalizedPathname d) currentPath"
      using relevant_prefix by (simp add: ruleCovers_iff)
    moreover have "prefix q currentPath"
      using h relevant_prefix by (simp add: startsWith_def)
    moreover have "length q = length (getNormalizedPathname d)"
      using h length_toLowerCase [of q] by simp
    ultimately have "q = getNormalizedPathname d" using prefix_same_length by blast
    with h show False by simp
  qed
next
  assume "isDisallowed document currentPath"
  then obtain d where d: "d \<in> set (disallowedPaths document)" and c: "ruleCovers currentPath d"
    by (auto simp: isDisallowed_def list_ex_iff)
  let ?q = "getNormalizedPathname d"
  have "toLowerCase ?q = ?q"
    using d disallowedPaths_lower toLowerCase_getNormalizedPathname by blast
  moreover have "?q \<noteq> [] \<and> (currentPath = ?q \<or> startsWith currentPath (?q @ ''/''))"
    using c by (simp add: ruleCovers_iff startsWith_def)
  ultimately show "\<exists>q. q \<noteq> [] \<and> toLowerCase q = q
           \<and> (currentPath = q \<or> startsWith currentPath (q @ ''/''))"
    by blast
qed

text \<open>C10 on the document \<^verbatim>\<open>Disallow: /Funnel\<close> and the path \<^verbatim>\<open>/Funnel\<close>: the candidate
  is \<^verbatim>\<open>/funnel\<close>, and the path, spelled as the rule is, is not excluded.\<close>

theorem rules_lowercase_query_as_is_witness:
  "disallowedPaths ''Disallow: /Funnel'' = [''/funnel'']
   \<and> toLowerCase ''/Funnel'' \<noteq> ''/Funnel''
   \<and> toLowerCase ''/Funnel'' = getNormalizedPathname ''/funnel''
   \<and> \<not> ruleCovers ''/Funnel'' ''/funnel''
   \<and> \<not> isDisallowed ''Disallow: /Funnel'' ''/Funnel''"
proof -
  have d: "disallowedPaths ''Disallow: /Funnel'' = [''/funnel'']" by code_simp
  have u: "toLowerCase ''/Funnel'' \<noteq> ''/Funnel''" by code_simp
  have e: "toLowerCase ''/Funnel'' = getNormalizedPathname ''/funnel''" by code_simp
  have "\<forall>d \<in> set (disallowedPaths ''Disallow: /Funnel''). \<forall>q.
         (''/Funnel'' = q \<or> startsWith ''/Funnel'' (q @ ''/''))
         \<and> toLowerCase q \<noteq> q
         \<and> toLowerCase q = getNormalizedPathname d
         \<longrightarrow> \<not> ruleCovers ''/Funnel'' d"
    using rules_lowercase_query_as_is [of "''Disallow: /Funnel''" "''/Funnel''"] by blast
  then have r: "\<not> ruleCovers ''/Funnel'' ''/funnel''"
    using d u e by auto
  then have "\<not> isDisallowed ''Disallow: /Funnel'' ''/Funnel''"
    using d by (simp add: isDisallowed_def)
  with d u e r show ?thesis by simp
qed

section \<open>The meta-tag check\<close>

lemma checkMetaTag_content:
  "metaTag pg = Some (Some content) \<Longrightarrow>
   checkMetaTag cfg pg =
     Inr \<lparr>message = ''Meta: content='' @ [CHR 0x22] @ content @ [CHR 0x22],
          status = (if shouldUseStandardLogic cfg pg
                    then (if isRestrictive content then BAD else OK)
                    else (if isRestrictive content then OK else BAD))\<rparr>"
  by (simp add: checkMetaTag_def)

lemma isRestrictive_sublist:
  "isRestrictive content \<longleftrightarrow>
     sublist ''noindex'' (toLowerCase content) \<or> sublist ''nofollow'' (toLowerCase content)"
  by (simp add: isRestrictive_def includes_str_sublist)

text \<open>
  C6. When the meta tag carries a content string, the check returns a verdict whose
  status follows the polarity: a content that holds \<^verbatim>\<open>noindex\<close> or \<^verbatim>\<open>nofollow\<close> in any
  letter case is BAD under standard polarity and OK under inverted polarity; any
  other content is OK under standard polarity and BAD under inverted polarity.
\<close>

theorem meta_verdict_mapping:
  assumes "metaTag pg = Some (Some content)"
  shows "\<exists>msg. checkMetaTag cfg pg =
     Inr \<lparr>message = msg,
          status = (if sublist ''noindex'' (toLowerCase content)
                       \<or> sublist ''nofollow'' (toLowerCase content)
                    then (if shouldUseStandardLogic cfg pg then BAD else OK)
                    else (if shouldUseStandardLogic cfg pg then OK else BAD))\<rparr>"
  using assms by (simp add: checkMetaTag_content isRestrictive_sublist)

text \<open>C6 on the contents \<^verbatim>\<open>index, follow\<close> and \<^verbatim>\<open>noindex\<close>: OK and BAD on the primary
  host outside the funnel list (standard polarity), BAD and OK on another host
  (inverted polarity).\<close>

theorem meta_verdict_mapping_witness:
  "shouldUseStandardLogic \<lparr>funnelPaths = [''/quiz'']\<rparr>
      \<lparr>hostname = ''get-honey.ai'', pathname = ''/'', metaTag = Some (Some ''index, follow'')\<rparr>
   \<and> \<not> shouldUseStandardLogic \<lparr>funnelPaths = [''/quiz'']\<rparr>
      \<lparr>hostname = ''example.com'', pathname = ''/'', metaTag = Some (Some ''index, follow'')\<rparr>
   \<and> map_sum id status (checkMetaTag \<lparr>funnelPaths = [''/quiz'']\<rparr>
      \<lparr>hostname = ''get-honey.ai'', pathname = ''/'', metaTag = Some (Some ''index, follow'')\<rparr>)
        = Inr OK
   \<and> map_sum id status (checkMetaTag \<lparr>funnelPaths = [''/quiz'']\<rparr>
      \<lparr>hostname = ''get-honey.ai'', pathname = ''/'', metaTag = Some (Some ''noindex'')\<rparr>)
        = Inr BAD
   \<and> map_sum id status (checkMetaTag \<lparr>funnelPaths = [''/quiz'']\<rparr>
      \<lparr>hostname = ''example.com'', pathname = ''/'', metaTag = Some (Some ''index, follow'')\<rparr>)
        = Inr BAD
   \<and> map_sum id status (checkMetaTag \<lparr>funnelPaths = [''/quiz'']\<rparr>
      \<lparr>hostname = ''example.com'', pathname = ''/'', metaTag = Some (Some ''noindex'')\<rparr>)
        = Inr OK"
proof -
  let ?cfg = "\<lparr>funnelPaths = [''/quiz'']\<rparr>"
  let ?s1 = "\<lparr>hostname = ''get-honey.ai'', pathname = ''/'', metaTag = Some (Some ''index, follow'')\<rparr>"
  let ?s2 = "\<lparr>hostname = ''get-honey.ai'', pathname = ''/'', metaTag = Some (Some ''noindex'')\<rparr>"
  let ?i1 = "\<lparr>hostname = ''example.com'', pathname = ''/'', metaTag = Some (Some ''index, follow'')\<rparr>"
  let ?i2 = "\<lparr>hostname = ''example.com'', pathname = ''/'', metaTag = Some (Some ''noindex'')\<rparr>"
  have r1: "\<not> (sublist ''noindex'' (toLowerCase ''index, follow'')
              \<or> sublist ''nofollow'' (toLowerCase ''index, follow''))" by code_simp
  have r2: "sublist ''noindex'' (toLowerCase ''noindex'')" by code_simp
  have st: "shouldUseStandardLogic ?cfg ?s1" "shouldUseStandardLogic ?cfg ?s2"
    "\<not> shouldUseStandardLogic ?cfg ?i1" "\<not> shouldUseStandardLogic ?cfg ?i2"
    by code_simp+
  have a: "\<exists>msg. checkMetaTag ?cfg ?s1 = Inr \<lparr>message = msg, status = OK\<rparr>"
    using meta_verdict_mapping [of ?s1 "''index, follow''" ?cfg] r1 st(1) by simp
  have b: "\<exists>msg. checkMetaTag ?cfg ?s2 = Inr \<lparr>message = msg, status = BAD\<rparr>"
    using meta_verdict_mapping [of ?s2 "''noindex''" ?cfg] r2 st(2) by simp
  have c: "\<exists>msg. checkMetaTag ?cfg ?i1 = Inr \<lparr>message = msg, status = BAD\<rparr>"
    using meta_verdict_mapping [of ?i1 "''index, follow''" ?cfg] r1 st(3) by simp
  have d: "\<exists>msg. checkMetaTag ?cfg ?i2 = Inr \<lparr>message = msg, status = OK\<rparr>"
    using meta_verdict_mapping [of ?i2 "''noindex''" ?cfg] r2 st(4) by simp
  from a b c d st show ?thesis by auto
qed

text \<open>
  C9. The meta-tag check returns a verdict whenever the tag is absent or its content
  attribute is a string. When the tag is there without a content attribute, the
  attribute reads as \<^verbatim>\<open>null\<close>, lower-casing it raises, and no verdict is produced.
\<close>

theorem checkMetaTag_verdict_or_raise:
  "((metaTag pg = None \<or> (\<exists>content. metaTag pg = Some (Some content)))
      \<longrightarrow> (\<exists>v. checkMetaTag cfg pg = Inr v))
   \<and> (metaTag pg = Some None \<longrightarrow> checkMetaTag cfg pg = Inl TypeError)"
  by (auto simp: checkMetaTag_def)

text \<open>C9 on three pages of another host: no tag, a tag with empty content, a tag
  without the attribute.\<close>

theorem checkMetaTag_verdict_or_raise_witness:
  "(\<exists>v. checkMetaTag \<lparr>funnelPaths = []\<rparr>
        \<lparr>hostname = ''example.com'', pathname = ''/'', metaTag = None\<rparr> = Inr v)
   \<and> (\<exists>v. checkMetaTag \<lparr>funnelPaths = []\<rparr>
        \<lparr>hostname = ''example.com'', pathname = ''/'', metaTag = Some (Some [])\<rparr> = Inr v)
   \<and> checkMetaTag \<lparr>funnelPaths = []\<rparr>
        \<lparr>hostname = ''example.com'', pathname = ''/'', metaTag = Some None\<rparr> = Inl TypeError"
  using
    checkMetaTag_verdict_or_raise
      [of "\<lparr>hostname = ''example.com'', pathname = ''/'', metaTag = None\<rparr>"
          "\<lparr>funnelPaths = []\<rparr>"]
    checkMetaTag_verdict_or_raise
      [of "\<lparr>hostname = ''example.com'', pathname = ''/'', metaTag = Some (Some [])\<rparr>"
          "\<lparr>funnelPaths = []\<rparr>"]
    checkMetaTag_verdict_or_raise
      [of "\<lparr>hostname = ''example.com'', pathname = ''/'', metaTag = Some None\<rparr>"
          "\<lparr>funnelPaths = []\<rparr>"]
  by simp

section \<open>The header check\<close>

lemma checkHeaderTag_absent:
  "headerMatch responseHeaders = None \<Longrightarrow>
   checkHeaderTag cfg pg (Loaded responseHeaders) =
     \<lparr>message = ''Header: not found'',
      status = (if shouldUseStandardLogic cfg pg then OK else BAD)\<rparr>"
  by (simp add: checkHeaderTag_def Let_def)

text \<open>
  C4, as the script has it. When the HEAD request succeeds and the header block holds
  no x-robots-tag header, the header verdict is OK under standard polarity (primary
  host, path outside the funnel list) and BAD under inverted polarity (funnel paths
  and every other host); it is never NOT_FOUND.
\<close>

theorem header_absent_by_polarity:
  assumes "\<not> sublist ''x-robots-tag:'' (toLowerCase responseHeaders)"
  shows "checkHeaderTag cfg pg (Loaded responseHeaders) =
     \<lparr>message = ''Header: not found'',
      status = (if hostname pg = ''get-honey.ai''
                   \<and> getNormalizedPathname (pathname pg) \<notin> set (funnelPaths cfg)
                then OK else BAD)\<rparr>"
proof -
  have "headerMatch responseHeaders = None" using assms by (simp add: headerMatch_None_iff)
  then show ?thesis
    by (simp add: checkHeaderTag_absent shouldUseStandardLogic_def)
qed

text \<open>C4 on a header block without the header: OK on an ordinary page of the primary
  host, BAD on a funnel page.\<close>

theorem header_absent_by_polarity_witness:
  "\<not> sublist ''x-robots-tag:'' (toLowerCase ''Content-Type: text/html'')
   \<and> checkHeaderTag \<lparr>funnelPaths = [''/quiz'']\<rparr>
        \<lparr>hostname = ''get-honey.ai'', pathname = ''/pricing/'', metaTag = None\<rparr>
        (Loaded ''Content-Type: text/html'')
      = \<lparr>message = ''Header: not found'', status = OK\<rparr>
   \<and> checkHeaderTag \<lparr>funnelPaths = [''/quiz'']\<rparr>
        \<lparr>hostname = ''get-honey.ai'', pathname = ''/quiz/'', metaTag = None\<rparr>
        (Loaded ''Content-Type: text/html'')
      = \<lparr>message = ''Header: not found'', status = BAD\<rparr>"
proof -
  let ?cfg = "\<lparr>funnelPaths = [''/quiz'']\<rparr>"
  have a: "\<not> sublist ''x-robots-tag:'' (toLowerCase ''Content-Type: text/html'')"
    by code_simp
  have n1: "getNormalizedPathname ''/pricing/'' = ''/pricing''" by code_simp
  have n2: "getNormalizedPathname ''/quiz/'' = ''/quiz''" by code_simp
  show ?thesis
    using a n1 n2
      header_absent_by_polarity [OF a, of ?cfg
        "\<lparr>hostname = ''get-honey.ai'', pathname = ''/pricing/'', metaTag = None\<rparr>"]
      header_absent_by_polarity [OF a, of ?cfg
        "\<lparr>hostname = ''get-honey.ai'', pathname = ''/quiz/'', metaTag = None\<rparr>"]
    by simp
qed

text \<open>C4 as stated fails on any page of another host: the HEAD request succeeds, the
  header is not there, and the header verdict is BAD.\<close>

theorem header_absent_never_bad_counterexample:
  "headerMatch ''Content-Type: text/html'' = None
   \<and> checkHeaderTag \<lparr>funnelPaths = []\<rparr>
        \<lparr>hostname = ''example.com'', pathname = ''/'', metaTag = None\<rparr>
        (Loaded ''Content-Type: text/html'')
      = \<lparr>message = ''Header: not found'', status = BAD\<rparr>"
  by code_simp

text \<open>
  C5. The two checks treat absence differently. Without a meta tag the meta verdict is
  NOT_FOUND whatever the polarity. Without the header in a successful HEAD response
  the header verdict is OK under standard polarity and BAD under inverted polarity,
  and so never NOT_FOUND.
\<close>

theorem absence_asymmetry:
  "(metaTag pg = None \<longrightarrow>
      checkMetaTag cfg pg = Inr \<lparr>message = ''Meta: tag not found'', status = NOT_FOUND\<rparr>)
   \<and> (headerMatch responseHeaders = None \<longrightarrow>
        status (checkHeaderTag cfg pg (Loaded responseHeaders))
          = (if shouldUseStandardLogic cfg pg then OK else BAD)
        \<and> status (checkHeaderTag cfg pg (Loaded responseHeaders)) \<noteq> NOT_FOUND)"
  by (simp add: checkMetaTag_def checkHeaderTag_absent)

text \<open>C5 on a page of the primary host (standard polarity) and a page of another host
  (inverted polarity), both without meta tag and without the header.\<close>

theorem absence_asymmetry_witness:
  "metaTag \<lparr>hostname = ''get-honey.ai'', pathname = ''/'', metaTag = None\<rparr> = None
   \<and> headerMatch ''Server: nginx'' = None
   \<and> shouldUseStandardLogic \<lparr>funnelPaths = [''/quiz'']\<rparr>
        \<lparr>hostname = ''get-honey.ai'', pathname = ''/'', metaTag = None\<rparr>
   \<and> \<not> shouldUseStandardLogic \<lparr>funnelPaths = [''/quiz'']\<rparr>
        \<lparr>hostname = ''example.com'', pathname = ''/'', metaTag = None\<rparr>
   \<and> checkMetaTag \<lparr>funnelPaths = [''/quiz'']\<rparr>
        \<lparr>hostname = ''get-honey.ai'', pathname = ''/'', metaTag = None\<rparr>
      = Inr \<lparr>message = ''Meta: tag not found'', status = NOT_FOUND\<rparr>
   \<and> checkMetaTag \<lparr>funnelPaths = [''/quiz'']\<rparr>
        \<lparr>hostname = ''example.com'', pathname = ''/'', metaTag = None\<rparr>
      = Inr \<lparr>message = ''Meta: tag not found'', status = NOT_FOUND\<rparr>
   \<and> status (checkHeaderTag \<lparr>funnelPaths = [''/quiz'']\<rparr>
        \<lparr>hostname = ''get-honey.ai'', pathname = ''/'', metaTag = None\<rparr>
        (Loaded ''Server: nginx'')) = OK
   \<and> status (checkHeaderTag \<lparr>funnelPaths = [''/quiz'']\<rparr>
        \<lparr>hostname = ''example.com'', pathname = ''/'', metaTag = None\<rparr>
        (Loaded ''Server: nginx'')) = BAD"
proof -
  let ?cfg = "\<lparr>funnelPaths = [''/quiz'']\<rparr>"
  let ?p1 = "\<lparr>hostname = ''get-honey.ai'', pathname = ''/'', metaTag = None\<rparr>"
  let ?p2 = "\<lparr>hostname = ''example.com'', pathname = ''/'', metaTag = None\<rparr>"
  have m: "metaTag ?p1 = None" "metaTag ?p2 = None" by simp_all
  have h: "headerMatch ''Server: nginx'' = None" by code_simp
  have s1: "shouldUseStandardLogic ?cfg ?p1" by code_simp
  have s2: "\<not> shouldUseStandardLogic ?cfg ?p2" by code_simp
  show ?thesis
    using m h s1 s2
      absence_asymmetry [of ?p1 ?cfg "''Server: nginx''"]
      absence_asymmetry [of ?p2 ?cfg "''Server: nginx''"]
    by simp
qed

section \<open>The orchestrator\<close>

lemma isFunnel_not_standard: "isFunnel cfg pg \<Longrightarrow> \<not> shouldUseStandardLogic cfg pg"
  by (simp add: isFunnel_def shouldUseStandardLogic_def)

lemma leftPanelResult_fallback:
  "isFunnel cfg pg \<Longrightarrow>
   status (checkRobotsTxtForPath robotsResponse (getNormalizedPathname (pathname pg))) \<noteq> OK \<Longrightarrow>
   leftPanelResult cfg pg robotsResponse = checkMetaTag cfg pg"
  by (simp add: leftPanelResult_def Let_def)

text \<open>
  C1, as the script has it. On a funnel page whose robots.txt check gives BAD, the
  left panel is the verdict of the meta-tag check in place of the BAD robots.txt
  verdict, and that check runs under the inverted polarity of the funnel page: a
  restrictive content is OK, any other content is BAD, a missing tag is NOT_FOUND.
\<close>

theorem funnel_fallback_polarity:
  assumes "isFunnel cfg pg"
    and "status (checkRobotsTxtForPath robotsResponse (getNormalizedPathname (pathname pg))) = BAD"
  shows "leftPanelResult cfg pg robotsResponse = checkMetaTag cfg pg
     \<and> \<not> shouldUseStandardLogic cfg pg
     \<and> (\<forall>content. metaTag pg = Some (Some content) \<longrightarrow>
           (\<exists>msg. runChecks cfg pg robotsResponse headResponse =
              Inr (\<lparr>message = msg, status = (if isRestrictive content then OK else BAD)\<rparr>,
                   checkHeaderTag cfg pg headResponse)))
     \<and> (metaTag pg = None \<longrightarrow>
           runChecks cfg pg robotsResponse headResponse =
              Inr (\<lparr>message = ''Meta: tag not found'', status = NOT_FOUND\<rparr>,
                   checkHeaderTag cfg pg headResponse))"
proof -
  have l: "leftPanelResult cfg pg robotsResponse = checkMetaTag cfg pg"
    using assms leftPanelResult_fallback by simp
  have s: "\<not> shouldUseStandardLogic cfg pg" using assms(1) by (rule isFunnel_not_standard)
  show ?thesis
    using l s by (auto simp: runChecks_def checkMetaTag_content) (simp add: checkMetaTag_def)
qed

text \<open>C1 on the funnel \<^verbatim>\<open>/quiz\<close>, missing from robots.txt, with meta content
  \<^verbatim>\<open>noindex\<close>: the left panel is the meta verdict, with status OK.\<close>

theorem funnel_fallback_polarity_witness:
  "isFunnel \<lparr>funnelPaths = [''/quiz'']\<rparr>
      \<lparr>hostname = ''get-honey.ai'', pathname = ''/quiz/'', metaTag = Some (Some ''noindex'')\<rparr>
   \<and> status (checkRobotsTxtForPath (Loaded ''Disallow: /admin'') ''/quiz'') = BAD
   \<and> runChecks \<lparr>funnelPaths = [''/quiz'']\<rparr>
        \<lparr>hostname = ''get-honey.ai'', pathname = ''/quiz/'', metaTag = Some (Some ''noindex'')\<rparr>
        (Loaded ''Disallow: /admin'') Failed
      = Inr (\<lparr>message = ''Meta: content='' @ [CHR 0x22] @ ''noindex'' @ [CHR 0x22], status = OK\<rparr>,
             \<lparr>message = ''Header: Request error'', status = NOT_FOUND\<rparr>)"
proof -
  let ?cfg = "\<lparr>funnelPaths = [''/quiz'']\<rparr>"
  let ?pg = "\<lparr>hostname = ''get-honey.ai'', pathname = ''/quiz/'', metaTag = Some (Some ''noindex'')\<rparr>"
  have n: "getNormalizedPathname (pathname ?pg) = ''/quiz''" by code_simp
  have f: "isFunnel ?cfg ?pg" by code_simp
  have b: "status (checkRobotsTxtForPath (Loaded ''Disallow: /admin'') ''/quiz'') = BAD"
    by code_simp
  have r: "isRestrictive ''noindex''" by code_simp
  have h: "checkHeaderTag ?cfg ?pg Failed
             = \<lparr>message = ''Header: Request error'', status = NOT_FOUND\<rparr>"
    by (simp add: checkHeaderTag_def)
  have m: "checkMetaTag ?cfg ?pg
             = Inr \<lparr>message = ''Meta: content='' @ [CHR 0x22] @ ''noindex'' @ [CHR 0x22], status = OK\<rparr>"
    using funnel_fallback_polarity [of ?cfg ?pg "Loaded ''Disallow: /admin''" Failed] f b n r
    by (simp add: checkMetaTag_content)
  show ?thesis
    using funnel_fallback_polarity [of ?cfg ?pg "Loaded ''Disallow: /admin''" Failed] f b n m h
    by (simp add: runChecks_def)
qed

text \<open>C1 as stated fails on the funnel \<^verbatim>\<open>/quiz\<close>, missing from robots.txt, with meta
  content \<^verbatim>\<open>index, follow\<close>: on an ordinary page of the same host that content is OK
  (standard polarity), and the left panel of the funnel page is BAD.\<close>

theorem funnel_fallback_standard_counterexample:
  "isFunnel \<lparr>funnelPaths = [''/quiz'']\<rparr>
      \<lparr>hostname = ''get-honey.ai'', pathname = ''/quiz'', metaTag = Some (Some ''index, follow'')\<rparr>
   \<and> status (checkRobotsTxtForPath (Loaded ''Disallow: /admin'') ''/quiz'') = BAD
   \<and> shouldUseStandardLogic \<lparr>funnelPaths = [''/quiz'']\<rparr>
      \<lparr>hostname = ''get-honey.ai'', pathname = ''/'', metaTag = Some (Some ''index, follow'')\<rparr>
   \<and> map_sum id status (checkMetaTag \<lparr>funnelPaths = [''/quiz'']\<rparr>
      \<lparr>hostname = ''get-honey.ai'', pathname = ''/'', metaTag = Some (Some ''index, follow'')\<rparr>)
        = Inr OK
   \<and> map_sum id (\<lambda>r. status (fst r)) (runChecks \<lparr>funnelPaths = [''/quiz'']\<rparr>
        \<lparr>hostname = ''get-honey.ai'', pathname = ''/quiz'', metaTag = Some (Some ''index, follow'')\<rparr>
        (Loaded ''Disallow: /admin'') Failed) = Inr BAD"
  by code_simp

text \<open>
  C2. On a funnel page whose robots.txt was fetched and does not exclude the path,
  with the meta content \<^verbatim>\<open>noindex, nofollow\<close>, the left panel is the meta verdict and
  its status is OK.
\<close>

theorem funnel_noindex_nofollow_ok:
  assumes "isFunnel cfg pg"
    and "\<not> isDisallowed document (getNormalizedPathname (pathname pg))"
    and "metaTag pg = Some (Some ''noindex, nofollow'')"
  shows "leftPanelResult cfg pg (Loaded document) = checkMetaTag cfg pg
     \<and> runChecks cfg pg (Loaded document) headResponse =
         Inr (\<lparr>message = ''Meta: content='' @ [CHR 0x22] @ ''noindex, nofollow'' @ [CHR 0x22],
               status = OK\<rparr>,
              checkHeaderTag cfg pg headResponse)"
proof -
  have "status (checkRobotsTxtForPath (Loaded document) (getNormalizedPathname (pathname pg)))
          \<noteq> OK"
    using assms(2) by (simp add: checkRobotsTxtForPath_def)
  then have l: "leftPanelResult cfg pg (Loaded document) = checkMetaTag cfg pg"
    using assms(1) by (rule leftPanelResult_fallback [rotated])
  have r: "isRestrictive ''noindex, nofollow''" by code_simp
  have "checkMetaTag cfg pg =
      Inr \<lparr>message = ''Meta: content='' @ [CHR 0x22] @ ''noindex, nofollow'' @ [CHR 0x22],
           status = OK\<rparr>"
    using assms(1,3) r isFunnel_not_standard [of cfg pg] by (simp add: checkMetaTag_content)
  with l show ?thesis by (simp add: runChecks_def)
qed

text \<open>C2 on the funnel \<^verbatim>\<open>/offer\<close> with a robots.txt that lists another funnel only.\<close>

theorem funnel_noindex_nofollow_ok_witness:
  "isFunnel \<lparr>funnelPaths = [''/quiz'', ''/offer'']\<rparr>
      \<lparr>hostname = ''get-honey.ai'', pathname = ''/offer/'',
       metaTag = Some (Some ''noindex, nofollow'')\<rparr>
   \<and> \<not> isDisallowed (''User-agent: *'' @ [CHR 0x0A] @ ''Disallow: /quiz'') ''/offer''
   \<and> runChecks \<lparr>funnelPaths = [''/quiz'', ''/offer'']\<rparr>
        \<lparr>hostname = ''get-honey.ai'', pathname = ''/offer/'',
         metaTag = Some (Some ''noindex, nofollow'')\<rparr>
        (Loaded (''User-agent: *'' @ [CHR 0x0A] @ ''Disallow: /quiz'')) (Loaded [])
      = Inr (\<lparr>message = ''Meta: content='' @ [CHR 0x22] @ ''noindex, nofollow'' @ [CHR 0x22],
               status = OK\<rparr>,
             \<lparr>message = ''Header: not found'', status = BAD\<rparr>)"
proof -
  let ?cfg = "\<lparr>funnelPaths = [''/quiz'', ''/offer'']\<rparr>"
  let ?pg = "\<lparr>hostname = ''get-honey.ai'', pathname = ''/offer/'',
              metaTag = Some (Some ''noindex, nofollow'')\<rparr>"
  let ?doc = "''User-agent: *'' @ [CHR 0x0A] @ ''Disallow: /quiz''"
  have n: "getNormalizedPathname (pathname ?pg) = ''/offer''" by code_simp
  have f: "isFunnel ?cfg ?pg" by code_simp
  have d: "\<not> isDisallowed ?doc ''/offer''" by code_simp
  have h: "checkHeaderTag ?cfg ?pg (Loaded []) = \<lparr>message = ''Header: not found'', status = BAD\<rparr>"
    using f isFunnel_not_standard [of ?cfg ?pg] by (simp add: checkHeaderTag_absent)
  show ?thesis
    using funnel_noindex_nofollow_ok [of ?cfg ?pg ?doc "Loaded []"] f d n h by simp
qed

text \<open>
  C3. On a funnel page whose robots.txt request ends in \<^verbatim>\<open>onerror\<close>, the robots.txt
  check gives the NOT_FOUND verdict \<^verbatim>\<open>robots.txt: Fetch Error\<close> without looking at any
  rule, but the orchestrator shows a robots.txt verdict only when its status is OK: on
  the funnel \<^verbatim>\<open>/quiz\<close> with meta content \<^verbatim>\<open>noindex\<close> the left panel is the meta verdict
  with status OK, not NOT_FOUND.
\<close>

theorem fetch_error_falls_back_to_meta:
  "checkRobotsTxtForPath Failed ''/quiz''
      = \<lparr>message = ''robots.txt: Fetch Error'', status = NOT_FOUND\<rparr>
   \<and> runChecks \<lparr>funnelPaths = [''/quiz'']\<rparr>
        \<lparr>hostname = ''get-honey.ai'', pathname = ''/quiz'', metaTag = Some (Some ''noindex'')\<rparr>
        Failed Failed
      = Inr (\<lparr>message = ''Meta: content='' @ [CHR 0x22] @ ''noindex'' @ [CHR 0x22], status = OK\<rparr>,
             \<lparr>message = ''Header: Request error'', status = NOT_FOUND\<rparr>)"
  by code_simp

end
